theory Spec2Isabelle
  imports Main "HOL-Library.AList" "HOL-Library.Char_ord" "HOL-Library.List_Lexorder"
    "HOL-Library.Sublist"
begin

unbundle bit_operations_syntax

section \<open>The filesystem the shell works on\<close>

text \<open>
  \<^verbatim>\<open>src/shell.py\<close> reaches the filesystem through \<^verbatim>\<open>pathlib\<close>, \<^verbatim>\<open>os\<close> and
  \<^verbatim>\<open>shutil\<close>. The filesystem is a tree: a regular file with its contents, a directory
  with its named entries, or a symbolic link with its target text. An absolute path is the
  list of its components below the root, so \<open>[]\<close> is \<^verbatim>\<open>/\<close>. Access rights are recorded
  (for \<^verbatim>\<open>ls -l\<close>) and not enforced: the process may read and write everywhere.
\<close>

type_synonym path = "string list"

record meta =
  perm :: nat     \<comment> \<open>the twelve permission bits of \<^verbatim>\<open>st_mode\<close>\<close>
  uid :: nat      \<comment> \<open>\<^verbatim>\<open>st_uid\<close>\<close>
  gid :: nat      \<comment> \<open>\<^verbatim>\<open>st_gid\<close>\<close>
  mtime :: int    \<comment> \<open>\<^verbatim>\<open>st_mtime\<close>, in seconds\<close>
  extent :: nat   \<comment> \<open>\<^verbatim>\<open>st_size\<close> as the filesystem reports it for a directory\<close>

datatype node =
    File meta string
  | Dir meta "(string \<times> node) list"
  | Symlink meta string

text \<open>
  \<open>lookup\<close> is \<^verbatim>\<open>lstat\<close>: it walks directories only and follows no link. In a directory
  the first entry of a name is the entry (\<open>map_of\<close>).
\<close>

fun lookup :: "node \<Rightarrow> path \<Rightarrow> node option" where
  "lookup n [] = Some n"
| "lookup (Dir m kids) (c # cs) =
     (case map_of kids c of None \<Rightarrow> None | Some k \<Rightarrow> lookup k cs)"
| "lookup _ (c # cs) = None"

fun is_dir_node :: "node option \<Rightarrow> bool" where
  "is_dir_node (Some (Dir m kids)) = True"
| "is_dir_node _ = False"

subsection \<open>Exceptions\<close>

text \<open>
  Every exception of the model is an instance of Python's \<^verbatim>\<open>Exception\<close>. \<open>message\<close> is
  \<^verbatim>\<open>str(e)\<close>. The messages of the errors the shell raises itself are the literals of the
  source. An error of the operating system (\<open>os_error\<close>) carries its number and text,
  without the file name that follows them in Python; the messages of the other errors
  raised inside the library are abbreviated in the same way.
\<close>

datatype exn_class =
    FileNotFoundError | NotADirectoryError | IsADirectoryError | ValueError
  | PermissionError | RuntimeError | EOFError | SameFileError | OSError

datatype exn = Exn exn_class string

fun message :: "exn \<Rightarrow> string" where
  "message (Exn k m) = m"

definition os_error :: "exn_class \<Rightarrow> exn" where
  "os_error k =
     Exn k (case k of
              FileNotFoundError \<Rightarrow> ''[Errno 2] No such file or directory''
            | NotADirectoryError \<Rightarrow> ''[Errno 20] Not a directory''
            | IsADirectoryError \<Rightarrow> ''[Errno 21] Is a directory''
            | _ \<Rightarrow> ''[Errno 40] Too many levels of symbolic links'')"

subsection \<open>Paths\<close>

text \<open>\<^verbatim>\<open>str.split\<close> on one separator character; it never returns the empty list.\<close>

fun split_on :: "char \<Rightarrow> string \<Rightarrow> string list" where
  "split_on d [] = [[]]"
| "split_on d (c # cs) =
     (if c = d then [] # split_on d cs
      else (case split_on d cs of [] \<Rightarrow> [[c]] | w # ws \<Rightarrow> (c # w) # ws))"

text \<open>
  \<^verbatim>\<open>self.pwd / Path(arg)\<close>: an absolute \<open>arg\<close> replaces the left operand. Empty and
  \<^verbatim>\<open>.\<close> components are kept here and dropped by \<open>realpath\<close> below.
\<close>

definition is_absolute :: "string \<Rightarrow> bool" where
  "is_absolute a = (case a of [] \<Rightarrow> False | c # cs \<Rightarrow> c = CHR ''/'')"

definition joinpath :: "path \<Rightarrow> string \<Rightarrow> string list" where
  "joinpath p a = (if is_absolute a then split_on CHR ''/'' a else p @ split_on CHR ''/'' a)"

text \<open>\<^verbatim>\<open>str(path)\<close> of an absolute path.\<close>

fun intercalate :: "string \<Rightarrow> string list \<Rightarrow> string" where
  "intercalate sep [] = []"
| "intercalate sep [x] = x"
| "intercalate sep (x # y # ys) = x @ sep @ intercalate sep (y # ys)"

definition str_of_path :: "path \<Rightarrow> string" where
  "str_of_path p = ''/'' @ intercalate ''/'' p"

text \<open>
  \<^verbatim>\<open>Path.resolve()\<close> (non-strict) is \<^verbatim>\<open>os.path.realpath\<close>: it walks the components
  from the root; an empty or \<^verbatim>\<open>.\<close> component is skipped, \<^verbatim>\<open>..\<close> drops the last
  component of the path so far (and stays at the root), a component that is a symbolic
  link is replaced by the resolution of its target (from the root when the target is
  absolute, from the link's directory otherwise), and any other component, existing or
  not, is appended. The first argument bounds the nesting of links inside link targets:
  a nesting deeper than the number of links in the tree visits one link twice, which is
  the loop that \<^verbatim>\<open>resolve\<close> reports as \<^verbatim>\<open>RuntimeError\<close>.
\<close>

fun realpath :: "nat \<Rightarrow> node \<Rightarrow> path \<Rightarrow> string list \<Rightarrow> exn + path" where
  "realpath n fs cur [] = Inr cur"
| "realpath n fs cur (c # rest) =
     (if c = [] \<or> c = ''.'' then realpath n fs cur rest
      else if c = ''..'' then realpath n fs (butlast cur) rest
      else (case lookup fs (cur @ [c]) of
              Some (Symlink lm t) \<Rightarrow>
                (case n of
                   0 \<Rightarrow> Inl (Exn RuntimeError ''Symlink loop'')
                 | Suc m \<Rightarrow>
                     (case realpath m fs (if is_absolute t then [] else cur)
                             (split_on CHR ''/'' t) of
                        Inl e \<Rightarrow> Inl e
                      | Inr cur' \<Rightarrow> realpath n fs cur' rest))
            | _ \<Rightarrow> realpath n fs (cur @ [c]) rest))"

fun count_links :: "node \<Rightarrow> nat" where
  "count_links (File m c) = 0"
| "count_links (Symlink lm t) = 1"
| "count_links (Dir m kids) = sum_list (map (\<lambda>e. count_links (snd e)) kids)"

definition resolve :: "node \<Rightarrow> string list \<Rightarrow> exn + path" where
  "resolve fs p = realpath (count_links fs) fs [] p"

text \<open>
  \<^verbatim>\<open>os.stat\<close> follows links: the entry at the resolved path, or nothing when the path
  loops or does not lead to an entry. \<^verbatim>\<open>Path.exists()\<close> and \<^verbatim>\<open>Path.is_dir()\<close> are
  answered from it.
\<close>

definition stat :: "node \<Rightarrow> path \<Rightarrow> node option" where
  "stat fs p = (case resolve fs p of Inl e \<Rightarrow> None | Inr q \<Rightarrow> lookup fs q)"

definition path_exists :: "node \<Rightarrow> path \<Rightarrow> bool" where
  "path_exists fs p = (stat fs p \<noteq> None)"

definition path_is_dir :: "node \<Rightarrow> path \<Rightarrow> bool" where
  "path_is_dir fs p = is_dir_node (stat fs p)"


subsection \<open>Changing the tree\<close>

text \<open>
  \<open>modify p f\<close> rewrites the entry named by \<open>p\<close> in its directory: \<open>f\<close> maps what is
  there (or \<open>None\<close>) to what shall be there. Nothing changes when the directory of \<open>p\<close>
  is missing, and the root itself is never replaced. The modification time of the
  directory is left as it was.
\<close>

fun modify :: "path \<Rightarrow> (node option \<Rightarrow> node option) \<Rightarrow> node \<Rightarrow> node" where
  "modify [] f n = n"
| "modify [c] f (Dir m kids) =
     Dir m (case f (map_of kids c) of
              None \<Rightarrow> AList.delete c kids
            | Some k \<Rightarrow> AList.update c k kids)"
| "modify (c # cs) f (Dir m kids) =
     (case map_of kids c of
        None \<Rightarrow> Dir m kids
      | Some k \<Rightarrow> Dir m (AList.update c (modify cs f k) kids))"
| "modify p f n = n"

text \<open>\<^verbatim>\<open>os.remove\<close> of a file and \<^verbatim>\<open>shutil.rmtree\<close> of a directory both drop one entry.\<close>

definition os_remove :: "node \<Rightarrow> path \<Rightarrow> exn option \<times> node" where
  "os_remove fs p = (None, modify p (\<lambda>old. None) fs)"

definition shutil_rmtree :: "node \<Rightarrow> path \<Rightarrow> exn option \<times> node" where
  "shutil_rmtree fs p = (None, modify p (\<lambda>old. None) fs)"

text \<open>\<^verbatim>\<open>Path.iterdir()\<close>: the names in a directory, each once.\<close>

definition iterdir :: "node \<Rightarrow> path \<Rightarrow> string list" where
  "iterdir fs p = (case lookup fs p of Some (Dir m kids) \<Rightarrow> remdups (map fst kids) | _ \<Rightarrow> [])"

section \<open>The process environment and the session\<close>

text \<open>
  What the process is given and the shell does not change: the home directory, the
  identity and clock that a created file is stamped with, the rendering of a
  modification time in the local time zone, and the two tree primitives of \<^verbatim>\<open>shutil\<close>
  whose effect on the tree no property below depends on (each returns the tree it leaves
  behind, also when it fails).
\<close>

record env =
  home :: path                       \<comment> \<open>\<^verbatim>\<open>Path.home()\<close>\<close>
  euid :: nat
  egid :: nat
  clock :: int
  strftime :: "int \<Rightarrow> string"       \<comment> \<open>\<^verbatim>\<open>datetime.fromtimestamp(t).strftime("%b %d %H:%M")\<close>\<close>
  shutil_copytree :: "node \<Rightarrow> path \<Rightarrow> path \<Rightarrow> exn option \<times> node"
  shutil_move :: "node \<Rightarrow> path \<Rightarrow> path \<Rightarrow> exn option \<times> node"

text \<open>
  The state one command runs in: the shell's only field \<^verbatim>\<open>self.pwd\<close>, the filesystem,
  the lines still to be read from standard input, the text written to standard output
  and the records given to \<^verbatim>\<open>logger.info\<close>.
\<close>

record session =
  pwd :: path
  root :: node
  stdin :: "string list"
  stdout :: string
  logged :: "string list"

definition newline :: string where
  "newline = [CHR 0x0A]"

definition print :: "string \<Rightarrow> session \<Rightarrow> session" where
  "print x s = s\<lparr>stdout := stdout s @ x @ newline\<rparr>"

definition print_noend :: "string \<Rightarrow> session \<Rightarrow> session" where
  "print_noend x s = s\<lparr>stdout := stdout s @ x\<rparr>"

definition logger_info :: "string \<Rightarrow> session \<Rightarrow> session" where
  "logger_info x s = s\<lparr>logged := logged s @ [x]\<rparr>"

text \<open>\<^verbatim>\<open>input(prompt)\<close> writes the prompt and takes the next line; at end of input it raises.\<close>

definition input :: "string \<Rightarrow> session \<Rightarrow> (exn + string) \<times> session" where
  "input prompt s =
     (case stdin s of
        [] \<Rightarrow> (Inl (Exn EOFError ''EOF when reading a line''), print_noend prompt s)
      | l # ls \<Rightarrow> (Inr l, (print_noend prompt s)\<lparr>stdin := ls\<rparr>))"

definition raise :: "exn_class \<Rightarrow> string \<Rightarrow> session \<Rightarrow> exn option \<times> session" where
  "raise k m s = (Some (Exn k m), s)"

section \<open>The command handlers of \<^verbatim>\<open>Shell\<close>\<close>

text \<open>
  A handler takes the environment, the session and its arguments, and returns the
  exception it raised, if any, with the session it leaves behind.
\<close>

type_synonym handler = "env \<Rightarrow> session \<Rightarrow> string list \<Rightarrow> exn option \<times> session"

subsection \<open>\<^verbatim>\<open>ls\<close>\<close>

text \<open>The loop over the arguments: \<^verbatim>\<open>-l\<close> sets the flag, anything else replaces the path.\<close>

fun ls_args :: "string list \<Rightarrow> bool \<times> string option \<Rightarrow> bool \<times> string option" where
  "ls_args [] acc = acc"
| "ls_args (arg # args) (detailed, path_str) =
     (if arg = ''-l'' then ls_args args (True, path_str)
      else ls_args args (detailed, Some arg))"

text \<open>What \<^verbatim>\<open>item.stat()\<close> reports of an entry.\<close>

fun node_meta :: "node \<Rightarrow> meta" where
  "node_meta (File m c) = m"
| "node_meta (Dir m kids) = m"
| "node_meta (Symlink m t) = m"

fun st_mode :: "node \<Rightarrow> nat" where
  "st_mode (File m c) = 32768 + perm m mod 4096"
| "st_mode (Dir m kids) = 16384 + perm m mod 4096"
| "st_mode (Symlink m t) = 40960 + perm m mod 4096"

fun st_size :: "node \<Rightarrow> nat" where
  "st_size (File m c) = length c"
| "st_size (Dir m kids) = extent m"
| "st_size (Symlink m t) = length t"

text \<open>
  \<^verbatim>\<open>stat.filemode\<close>: for each of the ten positions the first entry of its table whose
  bits are all set in the mode gives the character, and \<^verbatim>\<open>-\<close> stands when none is.
\<close>

fun filemode_char :: "nat \<Rightarrow> (nat \<times> char) list \<Rightarrow> char" where
  "filemode_char mode [] = CHR ''-''"
| "filemode_char mode ((b, ch) # table) =
     (if mode AND b = b then ch else filemode_char mode table)"

definition filemode_table :: "(nat \<times> char) list list" where
  "filemode_table =
     [[(40960, CHR ''l''), (49152, CHR ''s''), (32768, CHR ''-''), (24576, CHR ''b''),
       (16384, CHR ''d''), (8192, CHR ''c''), (4096, CHR ''p'')],
      [(256, CHR ''r'')],
      [(128, CHR ''w'')],
      [(2112, CHR ''s''), (2048, CHR ''S''), (64, CHR ''x'')],
      [(32, CHR ''r'')],
      [(16, CHR ''w'')],
      [(1032, CHR ''s''), (1024, CHR ''S''), (8, CHR ''x'')],
      [(4, CHR ''r'')],
      [(2, CHR ''w'')],
      [(513, CHR ''t''), (512, CHR ''T''), (1, CHR ''x'')]]"

definition filemode :: "nat \<Rightarrow> string" where
  "filemode mode = map (filemode_char mode) filemode_table"

text \<open>Decimal digits of a number, and \<^verbatim>\<open>{size:>8}\<close>.\<close>

fun show_nat :: "nat \<Rightarrow> string" where
  "show_nat n =
     (if n < 10 then [char_of (48 + n)]
      else show_nat (n div 10) @ [char_of (48 + n mod 10)])"

definition rjust :: "nat \<Rightarrow> string \<Rightarrow> string" where
  "rjust w x = replicate (w - length x) CHR '' '' @ x"

definition ls_line :: "env \<Rightarrow> node \<Rightarrow> string \<Rightarrow> string" where
  "ls_line E st name =
     filemode (st_mode st) @ '' '' @ show_nat (uid (node_meta st)) @ '' ''
       @ show_nat (gid (node_meta st)) @ '' '' @ rjust 8 (show_nat (st_size st)) @ '' ''
       @ strftime E (mtime (node_meta st)) @ '' '' @ name"

text \<open>
  The loop over the sorted entries of the directory \<open>dir\<close>. In detailed mode
  \<^verbatim>\<open>item.stat()\<close> raises on an entry that is a link to nothing, after the lines of the
  entries before it were printed.
\<close>

fun ls_items :: "env \<Rightarrow> bool \<Rightarrow> path \<Rightarrow> string list \<Rightarrow> session \<Rightarrow> exn option \<times> session" where
  "ls_items E detailed dir [] s = (None, s)"
| "ls_items E detailed dir (name # names) s =
     (if detailed then
        (case stat (root s) (dir @ [name]) of
           None \<Rightarrow> (Some (os_error FileNotFoundError), s)
         | Some st \<Rightarrow> ls_items E detailed dir names (print (ls_line E st name) s))
      else ls_items E detailed dir names (print name s))"

definition ls :: handler where
  "ls E s args =
     (case ls_args args (False, None) of (detailed, path_str) \<Rightarrow>
        (case resolve (root s)
                (case path_str of
                   None \<Rightarrow> pwd s
                 | Some a \<Rightarrow> if a = [] then pwd s else joinpath (pwd s) a) of
           Inl e \<Rightarrow> (Some e, s)
         | Inr path \<Rightarrow>
             if \<not> path_exists (root s) path then
               raise FileNotFoundError ''No such file or directory'' s
             else if \<not> path_is_dir (root s) path then
               raise NotADirectoryError ''Not a directory'' s
             else ls_items E detailed path (sort (iterdir (root s) path)) s))"

subsection \<open>\<^verbatim>\<open>cd\<close>\<close>

definition cd :: handler where
  "cd E s args =
     (case args of
        [arg] \<Rightarrow>
          (case resolve (root s)
                  (if arg = ''~'' then home E
                   else if arg = ''..'' then butlast (pwd s)
                   else joinpath (pwd s) arg) of
             Inl e \<Rightarrow> (Some e, s)
           | Inr new_path \<Rightarrow>
               if \<not> path_exists (root s) new_path then
                 raise FileNotFoundError ''No such file or directory'' s
               else if \<not> path_is_dir (root s) new_path then
                 raise NotADirectoryError ''Not a directory'' s
               else (None, s\<lparr>pwd := new_path\<rparr>))
      | _ \<Rightarrow> raise ValueError ''cd takes exactly one argument'' s)"

subsection \<open>\<^verbatim>\<open>cat\<close>\<close>

text \<open>
  \<^verbatim>\<open>f.read()\<close> of a file opened in text mode turns \<^verbatim>\<open>\r\n\<close> and \<^verbatim>\<open>\r\<close> into
  \<^verbatim>\<open>\n\<close>. The contents of a file are text already: decoding is not modelled.
\<close>

fun universal_newlines :: "string \<Rightarrow> string" where
  "universal_newlines [] = []"
| "universal_newlines [c] = (if c = CHR 0x0D then [CHR 0x0A] else [c])"
| "universal_newlines (c # d # cs) =
     (if c = CHR 0x0D \<and> d = CHR 0x0A then CHR 0x0A # universal_newlines cs
      else if c = CHR 0x0D then CHR 0x0A # universal_newlines (d # cs)
      else c # universal_newlines (d # cs))"

definition cat :: handler where
  "cat E s args =
     (case args of
        [arg] \<Rightarrow>
          (case resolve (root s) (joinpath (pwd s) arg) of
             Inl e \<Rightarrow> (Some e, s)
           | Inr path \<Rightarrow>
               if \<not> path_exists (root s) path then
                 raise FileNotFoundError ''No such file or directory'' s
               else if path_is_dir (root s) path then
                 raise IsADirectoryError ''Is a directory'' s
               else
                 (case stat (root s) path of
                    Some (File m c) \<Rightarrow> (None, print_noend (universal_newlines c) s)
                  | _ \<Rightarrow> (Some (os_error OSError), s)))
      | _ \<Rightarrow> raise ValueError ''cat takes exactly one argument'' s)"

subsection \<open>\<^verbatim>\<open>cp\<close>\<close>

text \<open>
  \<^verbatim>\<open>shutil.copy(src, dst)\<close> for a regular file \<open>src\<close>: a \<open>dst\<close> that is a directory
  stands for the entry of \<open>src\<close>'s name inside it; the file that opening \<open>dst\<close> for
  writing leads to (links followed) must not be \<open>src\<close> itself; an existing file is
  truncated and rewritten and keeps its owner, a missing one is created in its directory,
  which must exist; then \<^verbatim>\<open>copymode\<close> gives it the permission bits of \<open>src\<close>.
\<close>

fun missing_dir_class :: "node \<Rightarrow> path \<Rightarrow> exn_class" where
  "missing_dir_class (Dir m kids) (c # cs) =
     (case map_of kids c of None \<Rightarrow> FileNotFoundError | Some k \<Rightarrow> missing_dir_class k cs)"
| "missing_dir_class n p = NotADirectoryError"

definition shutil_copy :: "env \<Rightarrow> node \<Rightarrow> path \<Rightarrow> path \<Rightarrow> exn option \<times> node" where
  "shutil_copy E fs src dst =
     (case lookup fs src of
        Some (File m c) \<Rightarrow>
          (case resolve fs (if path_is_dir fs dst then dst @ [last src] else dst) of
             Inl e \<Rightarrow> (Some (os_error OSError), fs)
           | Inr target \<Rightarrow>
               if target = src then (Some (Exn SameFileError ''are the same file''), fs)
               else
                 (case lookup fs target of
                    Some (File m' c') \<Rightarrow>
                      (None, modify target
                               (\<lambda>old. Some (File (m'\<lparr>perm := perm m, mtime := clock E\<rparr>) c)) fs)
                  | Some other \<Rightarrow> (Some (os_error IsADirectoryError), fs)
                  | None \<Rightarrow>
                      if target \<noteq> [] \<and> is_dir_node (lookup fs (butlast target)) then
                        (None, modify target
                                 (\<lambda>old. Some (File \<lparr>perm = perm m, uid = euid E, gid = egid E,
                                                     mtime = clock E, extent = 0\<rparr> c)) fs)
                      else
                        (Some (os_error (missing_dir_class fs (butlast target))), fs)))
      | _ \<Rightarrow> (Some (os_error OSError), fs))"

text \<open>
  The leading \<^verbatim>\<open>-r\<close> of \<^verbatim>\<open>cp\<close> and \<^verbatim>\<open>rm\<close>: the flag and the arguments that remain.
\<close>

definition leading_r :: "string list \<Rightarrow> bool \<times> string list" where
  "leading_r args = (if length args > 0 \<and> hd args = ''-r'' then (True, tl args) else (False, args))"

definition cp :: handler where
  "cp E s args0 =
     (case leading_r args0 of (r, args) \<Rightarrow>
        (case args of
           [a, b] \<Rightarrow>
             (case resolve (root s) (joinpath (pwd s) a) of
                Inl e \<Rightarrow> (Some e, s)
              | Inr source \<Rightarrow>
                  (case resolve (root s) (joinpath (pwd s) b) of
                     Inl e \<Rightarrow> (Some e, s)
                   | Inr dest \<Rightarrow>
                       if \<not> path_exists (root s) source then
                         raise FileNotFoundError ''No such file or directory'' s
                       else if path_is_dir (root s) source \<and> \<not> r then
                         raise IsADirectoryError ''omit -r for directories'' s
                       else if path_is_dir (root s) source then
                         (case shutil_copytree E (root s) source dest of
                            (e, fs') \<Rightarrow> (e, s\<lparr>root := fs'\<rparr>))
                       else
                         (case shutil_copy E (root s) source dest of
                            (e, fs') \<Rightarrow> (e, s\<lparr>root := fs'\<rparr>))))
         | _ \<Rightarrow> raise ValueError ''cp requires source and destination'' s))"

subsection \<open>\<^verbatim>\<open>mv\<close>\<close>

definition mv :: handler where
  "mv E s args =
     (case args of
        [a, b] \<Rightarrow>
          (case resolve (root s) (joinpath (pwd s) a) of
             Inl e \<Rightarrow> (Some e, s)
           | Inr source \<Rightarrow>
               (case resolve (root s) (joinpath (pwd s) b) of
                  Inl e \<Rightarrow> (Some e, s)
                | Inr dest \<Rightarrow>
                    if \<not> path_exists (root s) source then
                      raise FileNotFoundError ''No such file or directory'' s
                    else
                      (case shutil_move E (root s) source dest of
                         (e, fs') \<Rightarrow> (e, s\<lparr>root := fs'\<rparr>))))
      | _ \<Rightarrow> raise ValueError ''mv requires source and destination'' s)"

subsection \<open>\<^verbatim>\<open>rm\<close>\<close>

text \<open>\<^verbatim>\<open>str.lower()\<close>, on the letters of ASCII.\<close>

definition lower_char :: "char \<Rightarrow> char" where
  "lower_char c =
     (case map_of (zip ''ABCDEFGHIJKLMNOPQRSTUVWXYZ'' ''abcdefghijklmnopqrstuvwxyz'') c of
        None \<Rightarrow> c
      | Some l \<Rightarrow> l)"

definition lower :: "string \<Rightarrow> string" where
  "lower x = map lower_char x"

definition rm :: handler where
  "rm E s args0 =
     (case leading_r args0 of (r, args) \<Rightarrow>
        (case args of
           [arg] \<Rightarrow>
             (case resolve (root s) (joinpath (pwd s) arg) of
                Inl e \<Rightarrow> (Some e, s)
              | Inr path \<Rightarrow>
                  if str_of_path path = ''/'' then
                    raise PermissionError ''cannot remove root directory'' s
                  else
                    (case resolve (root s) (butlast (pwd s)) of
                       Inl e \<Rightarrow> (Some e, s)
                     | Inr parent \<Rightarrow>
                         if path = parent then
                           raise PermissionError ''cannot remove parent directory'' s
                         else if \<not> path_exists (root s) path then
                           raise FileNotFoundError ''No such file or directory'' s
                         else if path_is_dir (root s) path \<and> \<not> r then
                           raise IsADirectoryError ''omit -r for directories'' s
                         else if path_is_dir (root s) path then
                           (case input (''Remove directory '' @ [CHR 0x27] @ str_of_path path
                                          @ [CHR 0x27] @ ''? (y/n) '') s of
                              (Inl e, s') \<Rightarrow> (Some e, s')
                            | (Inr confirm, s') \<Rightarrow>
                                if lower confirm \<noteq> ''y'' then (None, s')
                                else
                                  (case shutil_rmtree (root s') path of
                                     (e, fs') \<Rightarrow> (e, s'\<lparr>root := fs'\<rparr>)))
                         else
                           (case os_remove (root s) path of
                              (e, fs') \<Rightarrow> (e, s\<lparr>root := fs'\<rparr>))))
         | _ \<Rightarrow> raise ValueError ''rm takes exactly one argument'' s))"

section \<open>The dispatcher\<close>

definition commands :: "string \<Rightarrow> handler option" where
  "commands =
     map_of [(''ls'', ls), (''cd'', cd), (''cat'', cat), (''cp'', cp), (''mv'', mv), (''rm'', rm)]"

text \<open>
  \<^verbatim>\<open>execute_command\<close>. The first component of the result is the exception that leaves
  the call; \<^verbatim>\<open>except Exception\<close> catches every exception of the model.
\<close>

definition execute_command :: "env \<Rightarrow> session \<Rightarrow> string list \<Rightarrow> exn option \<times> session" where
  "execute_command E s tokens =
     (case tokens of
        [] \<Rightarrow> (None, s)
      | cmd # args \<Rightarrow>
          (case commands cmd of
             Some handler \<Rightarrow>
               (case handler E (logger_info (intercalate '' '' tokens) s) args of
                  (None, s') \<Rightarrow> (None, s')
                | (Some e, s') \<Rightarrow>
                    (None, logger_info (''ERROR: '' @ message e) (print (message e) s')))
           | None \<Rightarrow>
               (None, logger_info (''ERROR: '' @ ''Unknown command'')
                        (print ''Unknown command''
                           (logger_info (intercalate '' '' tokens) s)))))"

section \<open>Notions used in the statements\<close>

text \<open>
  A path is plain from \<open>cur\<close> when none of its components is empty, \<^verbatim>\<open>.\<close> or \<^verbatim>\<open>..\<close>
  and none of them, walked from \<open>cur\<close>, is a symbolic link: the paths that
  \<^verbatim>\<open>resolve\<close> returns, and returns unchanged.
\<close>

fun plain_from :: "node \<Rightarrow> path \<Rightarrow> string list \<Rightarrow> bool" where
  "plain_from fs cur [] = True"
| "plain_from fs cur (c # cs) =
     (c \<noteq> [] \<and> c \<noteq> ''.'' \<and> c \<noteq> ''..''
      \<and> (case lookup fs (cur @ [c]) of Some (Symlink m t) \<Rightarrow> False | _ \<Rightarrow> True)
      \<and> plain_from fs (cur @ [c]) cs)"

text \<open>
  The entry at a path without what lies below it: the kind, the metadata and the contents
  of a file or the target of a link. The entries at all paths are what can be observed
  of a tree.
\<close>

fun shallow :: "node \<Rightarrow> node" where
  "shallow (Dir m kids) = Dir m []"
| "shallow n = n"

definition entry :: "node \<Rightarrow> path \<Rightarrow> node option" where
  "entry fs p = map_option shallow (lookup fs p)"

section \<open>An example session\<close>

text \<open>
  A home directory, and a working directory \<^verbatim>\<open>/work\<close> with a file, a directory, a
  directory named \<^verbatim>\<open>~\<close> and a link. On this filesystem \<^verbatim>\<open>shutil.copytree\<close> and
  \<^verbatim>\<open>shutil.move\<close> are refused.
\<close>

definition example_dir_meta :: meta where
  "example_dir_meta = \<lparr>perm = 493, uid = 1000, gid = 1000, mtime = 0, extent = 4096\<rparr>"

definition example_file_meta :: meta where
  "example_file_meta = \<lparr>perm = 420, uid = 1000, gid = 1000, mtime = 0, extent = 0\<rparr>"

definition example_root :: node where
  "example_root =
     Dir example_dir_meta
       [(''home'', Dir example_dir_meta [(''user'', Dir example_dir_meta [])]),
        (''work'', Dir example_dir_meta
           [(''file1.txt'', File example_file_meta ''aboba''),
            (''dir1'', Dir example_dir_meta [(''file.txt'', File example_file_meta ''aboba'')]),
            (''~'', Dir example_dir_meta []),
            (''link'', Symlink example_file_meta ''dir1'')])]"

definition example_env :: env where
  "example_env =
     \<lparr>home = [''home'', ''user''], euid = 1000, egid = 1000, clock = 60,
      strftime = (\<lambda>t. ''Jan 01 00:00''),
      shutil_copytree = (\<lambda>fs src dst. (Some (Exn PermissionError ''[Errno 13] Permission denied''), fs)),
      shutil_move = (\<lambda>fs src dst. (Some (Exn PermissionError ''[Errno 13] Permission denied''), fs))\<rparr>"

definition example_session :: session where
  "example_session =
     \<lparr>pwd = [''work''], root = example_root, stdin = [''n''], stdout = [], logged = []\<rparr>"

section \<open>Lemmas\<close>

subsection \<open>Lookup and \<^verbatim>\<open>resolve\<close>\<close>

lemma lookup_append:
  "lookup fs (p @ q) = (case lookup fs p of None \<Rightarrow> None | Some n \<Rightarrow> lookup n q)"
  by (induction fs p rule: lookup.induct) (auto split: option.splits)

lemma lookup_parent_dir:
  "lookup fs (p @ [c]) = Some n \<Longrightarrow> is_dir_node (lookup fs p)"
  by (cases "lookup fs p" rule: is_dir_node.cases) (auto simp: lookup_append)

lemma plain_from_append:
  "plain_from fs a (xs @ ys) = (plain_from fs a xs \<and> plain_from fs (a @ xs) ys)"
  by (induction xs arbitrary: a) auto

lemma plain_from_butlast: "plain_from fs [] cur \<Longrightarrow> plain_from fs [] (butlast cur)"
proof (cases cur rule: rev_cases)
  case Nil
  then show ?thesis by simp
next
  case (snoc ys y)
  assume "plain_from fs [] cur"
  with snoc show ?thesis by (simp add: plain_from_append)
qed

lemma realpath_plain:
  "realpath n fs cur comps = Inr p \<Longrightarrow> plain_from fs [] cur \<Longrightarrow> plain_from fs [] p"
proof (induction n fs cur comps arbitrary: p rule: realpath.induct)
  case (1 n fs cur)
  then show ?case by simp
next
  case (2 n fs cur c rest)
  note run = \<open>realpath n fs cur (c # rest) = Inr p\<close>
  note plain = \<open>plain_from fs [] cur\<close>
  show ?case
  proof (cases "c = [] \<or> c = ''.''")
    case True
    with run have "realpath n fs cur rest = Inr p" by auto
    then show ?thesis by (rule "2.IH"(1)[OF True _ plain])
  next
    case nodot: False
    show ?thesis
    proof (cases "c = ''..''")
      case True
      with nodot run have "realpath n fs (butlast cur) rest = Inr p" by simp
      then show ?thesis
        by (rule "2.IH"(2)[OF nodot True _ plain_from_butlast[OF plain]])
    next
      case noup: False
      have step: "plain_from fs [] (cur @ [c])"
        if "\<And>lm t. lookup fs (cur @ [c]) \<noteq> Some (Symlink lm t)"
        using that plain nodot noup
        by (auto simp: plain_from_append split: option.splits node.splits)
      show ?thesis
      proof (cases "lookup fs (cur @ [c])")
        case None
        with nodot noup run have "realpath n fs (cur @ [c]) rest = Inr p" by simp
        moreover have "plain_from fs [] (cur @ [c])" using None by (intro step) simp
        ultimately show ?thesis by (rule "2.IH"(3)[OF nodot noup None])
      next
        case (Some k)
        show ?thesis
        proof (cases k)
          case (File m x)
          with Some nodot noup run have "realpath n fs (cur @ [c]) rest = Inr p" by simp
          moreover have "plain_from fs [] (cur @ [c])" using Some File by (intro step) simp
          ultimately show ?thesis by (rule "2.IH"(4)[OF nodot noup Some File])
        next
          case (Dir m kids)
          with Some nodot noup run have "realpath n fs (cur @ [c]) rest = Inr p" by simp
          moreover have "plain_from fs [] (cur @ [c])" using Some Dir by (intro step) simp
          ultimately show ?thesis by (rule "2.IH"(5)[OF nodot noup Some Dir])
        next
          case (Symlink lm t)
          show ?thesis
          proof (cases n)
            case 0
            with Some Symlink nodot noup run show ?thesis by simp
          next
            case (Suc m)
            from Some Symlink nodot noup run Suc obtain cur' where
              inner: "realpath m fs (if is_absolute t then [] else cur) (split_on CHR ''/'' t) = Inr cur'"
              and outer: "realpath n fs cur' rest = Inr p"
              by (auto split: sum.splits)
            have "plain_from fs [] (if is_absolute t then [] else cur)"
              using plain by simp
            then have "plain_from fs [] cur'"
              by (rule "2.IH"(6)[OF nodot noup Some Symlink Suc inner])
            then show ?thesis
              by (rule "2.IH"(7)[OF nodot noup Some Symlink Suc inner outer])
          qed
        qed
      qed
    qed
  qed
qed

lemma realpath_of_plain: "plain_from fs cur q \<Longrightarrow> realpath n fs cur q = Inr (cur @ q)"
  by (induction q arbitrary: cur) (auto split: option.splits node.splits)

lemma resolve_plain: "resolve fs x = Inr p \<Longrightarrow> plain_from fs [] p"
  using realpath_plain[of "count_links fs" fs "[]" x p] by (simp add: resolve_def)

lemma resolve_idem: "resolve fs x = Inr p \<Longrightarrow> resolve fs p = Inr p"
  using resolve_plain[of fs x p] realpath_of_plain[of fs "[]" p] by (simp add: resolve_def)

lemma stat_resolved: "resolve fs x = Inr p \<Longrightarrow> stat fs p = lookup fs p"
  by (simp add: stat_def resolve_idem)

subsection \<open>Entries after a change of the tree\<close>

lemma entry_Nil [simp]: "entry fs [] = Some (shallow fs)"
  by (simp add: entry_def)

lemma entry_Cons_Dir [simp]:
  "entry (Dir m kids) (c # cs) = (case map_of kids c of None \<Rightarrow> None | Some k \<Rightarrow> entry k cs)"
  by (simp add: entry_def split: option.splits)

lemma entry_Cons_File [simp]: "entry (File m x) (c # cs) = None"
  by (simp add: entry_def)

lemma entry_Cons_Symlink [simp]: "entry (Symlink m x) (c # cs) = None"
  by (simp add: entry_def)

lemma entry_below_nondir: "\<not> is_dir_node (Some n) \<Longrightarrow> q \<noteq> [] \<Longrightarrow> entry n q = None"
  by (cases n; cases q) simp_all

lemma entry_delete:
  "p \<noteq> [] \<Longrightarrow> entry (modify p (\<lambda>old. None) fs) x = (if prefix p x then None else entry fs x)"
proof (induction p arbitrary: fs x)
  case Nil
  then show ?case by simp
next
  case (Cons c cs)
  show ?case
  proof (cases fs)
    case (File m y)
    then show ?thesis by (cases x; cases cs) auto
  next
    case (Symlink m t)
    then show ?thesis by (cases x; cases cs) auto
  next
    case (Dir m kids)
    show ?thesis
    proof (cases cs)
      case Nil
      with Dir show ?thesis by (cases x) (simp_all add: delete_conv')
    next
      case (Cons d ds)
      with Dir Cons.IH[of _ "tl x"] show ?thesis
        by (cases x) (auto simp: update_conv' split: option.splits)
    qed
  qed
qed

lemma entry_write:
  "is_dir_node (lookup fs (butlast p)) \<Longrightarrow> p \<noteq> [] \<Longrightarrow> \<not> is_dir_node (lookup fs p) \<Longrightarrow>
   entry (modify p (\<lambda>old. Some (File m c)) fs) x = (if x = p then Some (File m c) else entry fs x)"
proof (induction p arbitrary: fs x)
  case Nil
  then show ?case by simp
next
  case (Cons d ds)
  show ?case
  proof (cases fs)
    case (File fm y)
    with Cons.prems show ?thesis by (cases ds) auto
  next
    case (Symlink lm t)
    with Cons.prems show ?thesis by (cases ds) auto
  next
    case (Dir dm kids)
    show ?thesis
    proof (cases ds)
      case Nil
      with Dir Cons.prems show ?thesis
        by (cases x) (auto simp: update_conv' entry_below_nondir split: option.splits)
    next
      case inner: (Cons e es)
      show ?thesis
      proof (cases "map_of kids d")
        case None
        with Dir inner Cons.prems show ?thesis by simp
      next
        case (Some k)
        with Dir inner Cons.prems Cons.IH[of k "tl x"] show ?thesis
          by (cases x) (auto simp: update_conv')
      qed
    qed
  qed
qed

subsection \<open>Paths, listings and the state\<close>

lemma split_on_plain: "d \<notin> set x \<Longrightarrow> split_on d x = [x]"
  by (induction x) auto

lemma is_absolute_plain: "CHR ''/'' \<notin> set x \<Longrightarrow> \<not> is_absolute x"
  by (cases x) (auto simp: is_absolute_def)

lemma joinpath_name: "CHR ''/'' \<notin> set d \<Longrightarrow> joinpath p d = p @ [d]"
  by (simp add: joinpath_def split_on_plain is_absolute_plain)

lemma joinpath_root: "joinpath p ''/'' = [[], []]"
  by (simp add: joinpath_def is_absolute_def)

lemma resolve_root: "resolve fs [[], []] = Inr []"
  by (simp add: resolve_def)

lemma str_of_path_root: "plain_from fs a p \<Longrightarrow> (str_of_path p = ''/'') = (p = [])"
  by (cases "(''/'', p)" rule: intercalate.cases) (auto simp: str_of_path_def)

lemma lower_y: "(lower r = ''y'') = (r = ''y'' \<or> r = ''Y'')"
proof (cases r)
  case Nil
  then show ?thesis by (simp add: lower_def)
next
  case (Cons c cs)
  have "(lower_char c = CHR ''y'') = (c = CHR ''y'' \<or> c = CHR ''Y'')"
    by (auto simp: lower_char_def)
  with Cons show ?thesis by (auto simp: lower_def)
qed

lemma iterdir_set:
  "lookup fs p = Some (Dir m kids) \<Longrightarrow> set (iterdir fs p) = {n. lookup fs (p @ [n]) \<noteq> None}"
  by (auto simp: iterdir_def lookup_append map_of_eq_None_iff image_iff split: option.splits)

lemma iterdir_distinct: "distinct (iterdir fs p)"
  by (auto simp: iterdir_def split: option.splits node.splits)

lemma ls_items_plain:
  "ls_items E False dir names s = (None, s\<lparr>stdout := stdout s @ concat (map (\<lambda>n. n @ newline) names)\<rparr>)"
  by (induction names arbitrary: s) (simp_all add: print_def)

lemma ls_args_acc:
  "ls_args args (d, t) =
     (d \<or> ''-l'' \<in> set args,
      case filter (\<lambda>a. a \<noteq> ''-l'') args of [] \<Rightarrow> t | x # xs \<Rightarrow> Some (last (x # xs)))"
  by (induction args arbitrary: d t) (auto split: list.splits)

lemma print_fields [simp]:
  "pwd (print x s) = pwd s" "root (print x s) = root s" "stdin (print x s) = stdin s"
  "logged (print x s) = logged s" "stdout (print x s) = stdout s @ x @ newline"
  by (simp_all add: print_def)

lemma print_noend_fields [simp]:
  "pwd (print_noend x s) = pwd s" "root (print_noend x s) = root s"
  "stdin (print_noend x s) = stdin s" "logged (print_noend x s) = logged s"
  "stdout (print_noend x s) = stdout s @ x"
  by (simp_all add: print_noend_def)

lemma logger_info_fields [simp]:
  "pwd (logger_info x s) = pwd s" "root (logger_info x s) = root s"
  "stdin (logger_info x s) = stdin s" "stdout (logger_info x s) = stdout s"
  "logged (logger_info x s) = logged s @ [x]"
  by (simp_all add: logger_info_def)

lemma raise_simps [simp]: "fst (raise k m s) = Some (Exn k m)" "snd (raise k m s) = s"
  by (simp_all add: raise_def)

subsection \<open>What a handler leaves alone\<close>

lemma input_frame:
  "pwd (snd (input p s)) = pwd s \<and> root (snd (input p s)) = root s
   \<and> logged (snd (input p s)) = logged s"
  by (simp add: input_def split: list.split)

lemma ls_items_frame:
  "pwd (snd (ls_items E d dir names s)) = pwd s \<and> logged (snd (ls_items E d dir names s)) = logged s
   \<and> root (snd (ls_items E d dir names s)) = root s"
  by (induction E d dir names s rule: ls_items.induct) (simp_all split: option.split)

lemma ls_frame: "pwd (snd (ls E s args)) = pwd s \<and> logged (snd (ls E s args)) = logged s"
  by (simp add: ls_def ls_items_frame split: prod.split sum.split)

lemma cat_frame: "pwd (snd (cat E s args)) = pwd s \<and> logged (snd (cat E s args)) = logged s"
  by (simp add: cat_def split: list.split sum.split option.split node.split)

lemma cp_frame: "pwd (snd (cp E s args)) = pwd s \<and> logged (snd (cp E s args)) = logged s"
  by (simp add: cp_def split: list.split sum.split prod.split)

lemma mv_frame: "pwd (snd (mv E s args)) = pwd s \<and> logged (snd (mv E s args)) = logged s"
  by (simp add: mv_def split: list.split sum.split prod.split)

lemma rm_frame: "pwd (snd (rm E s args)) = pwd s \<and> logged (snd (rm E s args)) = logged s"
proof -
  have confirm: "pwd (snd (case input p s of
                   (Inl e, s') \<Rightarrow> (Some e, s')
                 | (Inr confirm, s') \<Rightarrow>
                     if lower confirm \<noteq> ''y'' then (None, s')
                     else (case shutil_rmtree (root s') path of (e, fs') \<Rightarrow> (e, s'\<lparr>root := fs'\<rparr>)))) = pwd s
        \<and> logged (snd (case input p s of
                   (Inl e, s') \<Rightarrow> (Some e, s')
                 | (Inr confirm, s') \<Rightarrow>
                     if lower confirm \<noteq> ''y'' then (None, s')
                     else (case shutil_rmtree (root s') path of (e, fs') \<Rightarrow> (e, s'\<lparr>root := fs'\<rparr>)))) = logged s"
    for p path
    using input_frame[of p s]
    by (cases "input p s") (simp split: sum.split prod.split)
  show ?thesis
    by (simp add: rm_def confirm split: list.split sum.split prod.split)
qed

lemma cd_checked:
  "logged (snd (case r of
       Inl e \<Rightarrow> (Some e, s)
     | Inr new_path \<Rightarrow>
         if \<not> path_exists (root s) new_path then
           raise FileNotFoundError ''No such file or directory'' s
         else if \<not> path_is_dir (root s) new_path then
           raise NotADirectoryError ''Not a directory'' s
         else (None, s\<lparr>pwd := new_path\<rparr>))) = logged s"
  "fst (case r of
       Inl e \<Rightarrow> (Some e, s)
     | Inr new_path \<Rightarrow>
         if \<not> path_exists (root s) new_path then
           raise FileNotFoundError ''No such file or directory'' s
         else if \<not> path_is_dir (root s) new_path then
           raise NotADirectoryError ''Not a directory'' s
         else (None, s\<lparr>pwd := new_path\<rparr>)) = None \<or>
   snd (case r of
       Inl e \<Rightarrow> (Some e, s)
     | Inr new_path \<Rightarrow>
         if \<not> path_exists (root s) new_path then
           raise FileNotFoundError ''No such file or directory'' s
         else if \<not> path_is_dir (root s) new_path then
           raise NotADirectoryError ''Not a directory'' s
         else (None, s\<lparr>pwd := new_path\<rparr>)) = s"
  by (simp_all split: sum.split)

lemma cd_logged: "logged (snd (cd E s args)) = logged s"
  unfolding cd_def by (simp only: cd_checked raise_simps split: list.split) simp

lemma cd_fail_frame: "fst (cd E s args) = None \<or> snd (cd E s args) = s"
  unfolding cd_def by (simp only: cd_checked raise_simps split: list.split) simp

lemma handler_logged: "commands cmd = Some h \<Longrightarrow> logged (snd (h E s args)) = logged s"
proof -
  assume "commands cmd = Some h"
  then have "h = ls \<or> h = cd \<or> h = cat \<or> h = cp \<or> h = mv \<or> h = rm"
    by (simp add: commands_def split: if_split_asm)
  then show ?thesis
    using ls_frame cd_logged cat_frame cp_frame mv_frame rm_frame by blast
qed

subsection \<open>What \<^verbatim>\<open>ls\<close> computes\<close>

lemma ls_items_detailed:
  "ls_items E True dir names s =
     (if takeWhile (\<lambda>n. stat (root s) (dir @ [n]) \<noteq> None) names = names then None
      else Some (os_error FileNotFoundError),
      s\<lparr>stdout := stdout s @
           concat (map (\<lambda>n. case stat (root s) (dir @ [n]) of
                               Some st \<Rightarrow> ls_line E st n @ newline
                             | None \<Rightarrow> [])
                     (takeWhile (\<lambda>n. stat (root s) (dir @ [n]) \<noteq> None) names))\<rparr>)"
proof (induction names arbitrary: s)
  case Nil
  then show ?case by simp
next
  case (Cons n names)
  show ?case
  proof (cases "stat (root s) (dir @ [n])")
    case None
    then show ?thesis by simp
  next
    case (Some st)
    then show ?thesis
      using Cons.IH[of "print (ls_line E st n) s"] by (simp add: print_def)
  qed
qed

lemma ls_parsed:
  "ls_args args (False, None) =
     (''-l'' \<in> set args,
      if filter (\<lambda>a. a \<noteq> ''-l'') args = [] then None
      else Some (last (filter (\<lambda>a. a \<noteq> ''-l'') args)))"
  by (simp add: ls_args_acc split: list.split)

lemma ls_unfolded:
  "ls E s args =
     (let detailed = (''-l'' \<in> set args);
          paths = filter (\<lambda>a. a \<noteq> ''-l'') args;
          target = (if paths = [] \<or> last paths = [] then pwd s
                    else joinpath (pwd s) (last paths))
      in case resolve (root s) target of
           Inl e \<Rightarrow> (Some e, s)
         | Inr path \<Rightarrow>
             if \<not> path_exists (root s) path then
               (Some (Exn FileNotFoundError ''No such file or directory''), s)
             else if \<not> path_is_dir (root s) path then
               (Some (Exn NotADirectoryError ''Not a directory''), s)
             else
               (let names = sort (iterdir (root s) path);
                    listed = takeWhile (\<lambda>n. stat (root s) (path @ [n]) \<noteq> None) names
                in if detailed then
                     (if listed = names then None else Some (os_error FileNotFoundError),
                      s\<lparr>stdout := stdout s @
                           concat (map (\<lambda>n. case stat (root s) (path @ [n]) of
                                               Some st \<Rightarrow> ls_line E st n @ newline
                                             | None \<Rightarrow> [])
                                     listed)\<rparr>)
                   else
                     (None, s\<lparr>stdout := stdout s @ concat (map (\<lambda>n. n @ newline) names)\<rparr>)))"
proof -
  let ?paths = "filter (\<lambda>a. a \<noteq> ''-l'') args"
  let ?target = "if ?paths = [] \<or> last ?paths = [] then pwd s else joinpath (pwd s) (last ?paths)"
  have tgt: "(case (if ?paths = [] then None else Some (last ?paths)) of
                None \<Rightarrow> pwd s
              | Some a \<Rightarrow> if a = [] then pwd s else joinpath (pwd s) a) = ?target"
    by simp
  have unfold: "ls E s args =
          (case resolve (root s) ?target of
             Inl e \<Rightarrow> (Some e, s)
           | Inr path \<Rightarrow>
               if \<not> path_exists (root s) path then
                 raise FileNotFoundError ''No such file or directory'' s
               else if \<not> path_is_dir (root s) path then
                 raise NotADirectoryError ''Not a directory'' s
               else ls_items E (''-l'' \<in> set args) path (sort (iterdir (root s) path)) s)"
    by (simp only: ls_def ls_parsed prod.case tgt)
  show ?thesis
  proof (cases "resolve (root s) ?target")
    case (Inl e)
    with unfold show ?thesis by (simp add: Let_def)
  next
    case (Inr path)
    show ?thesis
    proof (cases "''-l'' \<in> set args")
      case True
      with unfold Inr show ?thesis
        by (simp add: Let_def raise_def ls_items_detailed)
    next
      case False
      with unfold Inr show ?thesis
        by (simp add: Let_def raise_def ls_items_plain)
    qed
  qed
qed

lemma show_nat_examples:
  "show_nat 1000 = ''1000''"
  "rjust 8 (show_nat (Suc (Suc (Suc (Suc (Suc 0)))))) = ''       5''"
  by code_simp+

lemma filemode_example: "filemode 33188 = ''-rw-r--r--''"
  by (simp add: filemode_def filemode_table_def)

subsection \<open>The guard of \<^verbatim>\<open>rm\<close>, a successful \<^verbatim>\<open>cd\<close>, a file copy\<close>

lemma leading_r_simps:
  "a \<noteq> ''-r'' \<Longrightarrow> leading_r (a # as) = (False, a # as)"
  "leading_r (''-r'' # as) = (True, as)"
  "leading_r [] = (False, [])"
  by (simp_all add: leading_r_def)

lemma rm_guarded:
  assumes "leading_r args = (r, [a])"
    and "resolve (root s) (joinpath (pwd s) a) = Inr p"
    and "p = [] \<or> p = butlast (pwd s)"
  shows "rm E s args =
           raise PermissionError
             (if p = [] then ''cannot remove root directory''
              else ''cannot remove parent directory'') s"
proof (cases "p = []")
  case True
  with assms(1,2) show ?thesis by (simp add: rm_def str_of_path_def)
next
  case False
  with assms(3) have parent: "p = butlast (pwd s)" by simp
  have "plain_from (root s) [] p" using assms(2) by (rule resolve_plain)
  with False have "str_of_path p \<noteq> ''/''" by (simp add: str_of_path_root)
  moreover have "resolve (root s) (butlast (pwd s)) = Inr p"
    using resolve_idem[OF assms(2)] parent by simp
  ultimately show ?thesis using assms(1,2) False by (simp add: rm_def)
qed

lemma cd_checked_success:
  "resolve (root s) target = Inr p \<Longrightarrow> is_dir_node (lookup (root s) p) \<Longrightarrow>
   (case resolve (root s) target of
      Inl e \<Rightarrow> (Some e, s)
    | Inr new_path \<Rightarrow>
        if \<not> path_exists (root s) new_path then
          raise FileNotFoundError ''No such file or directory'' s
        else if \<not> path_is_dir (root s) new_path then
          raise NotADirectoryError ''Not a directory'' s
        else (None, s\<lparr>pwd := new_path\<rparr>)) = (None, s\<lparr>pwd := p\<rparr>)"
  by (cases "lookup (root s) p" rule: is_dir_node.cases)
     (simp_all add: path_exists_def path_is_dir_def stat_resolved)

lemma plain_not_link:
  "plain_from fs [] p \<Longrightarrow> p \<noteq> [] \<Longrightarrow> lookup fs p \<noteq> Some (Symlink lm t)"
  by (cases p rule: rev_cases) (auto simp: plain_from_append split: option.splits node.splits)

lemma shutil_copy_file:
  assumes is_file: "lookup fs src = Some (File m c)"
    and dest: "resolve fs x = Inr dst"
    and distinct: "dst \<noteq> src"
    and not_dir: "\<not> is_dir_node (lookup fs dst)"
    and parent: "is_dir_node (lookup fs (butlast dst))"
  shows "\<exists>fs' m'. shutil_copy E fs src dst = (None, fs') \<and> perm m' = perm m
           \<and> (\<forall>y. entry fs' y = (if y = dst then Some (File m' c) else entry fs y))"
proof -
  have nonroot: "dst \<noteq> []" using not_dir parent by auto
  have st: "stat fs dst = lookup fs dst" using dest by (rule stat_resolved)
  have same: "resolve fs dst = Inr dst" using dest by (rule resolve_idem)
  have nolink: "lookup fs dst \<noteq> Some (Symlink lm t)" for lm t
    using resolve_plain[OF dest] nonroot by (rule plain_not_link)
  show ?thesis
  proof (cases "lookup fs dst")
    case None
    let ?new = "\<lparr>perm = perm m, uid = euid E, gid = egid E, mtime = clock E, extent = 0\<rparr>"
    have "shutil_copy E fs src dst = (None, modify dst (\<lambda>old. Some (File ?new c)) fs)"
      using is_file st same distinct None nonroot parent
      by (simp add: shutil_copy_def path_is_dir_def)
    moreover have "\<forall>y. entry (modify dst (\<lambda>old. Some (File ?new c)) fs) y
                     = (if y = dst then Some (File ?new c) else entry fs y)"
      using entry_write[OF parent nonroot not_dir] by simp
    moreover have "perm ?new = perm m" by simp
    ultimately show ?thesis by blast
  next
    case (Some k)
    with not_dir nolink obtain m' c' where old: "lookup fs dst = Some (File m' c')"
      by (cases k) auto
    let ?new = "m'\<lparr>perm := perm m, mtime := clock E\<rparr>"
    have "shutil_copy E fs src dst = (None, modify dst (\<lambda>old. Some (File ?new c)) fs)"
      using is_file st same distinct old
      by (simp add: shutil_copy_def path_is_dir_def)
    moreover have "\<forall>y. entry (modify dst (\<lambda>old. Some (File ?new c)) fs) y
                     = (if y = dst then Some (File ?new c) else entry fs y)"
      using entry_write[OF parent nonroot not_dir] by simp
    moreover have "perm ?new = perm m" by simp
    ultimately show ?thesis by blast
  qed
qed

section \<open>Properties of the dispatcher\<close>

subsection \<open>Unknown commands\<close>

text \<open>
  C2. A token sequence whose first token is no registered command name makes
  \<^verbatim>\<open>execute_command\<close> print exactly \<^verbatim>\<open>Unknown command\<close> and log
  \<^verbatim>\<open>ERROR: Unknown command\<close> after the line itself; no exception leaves the call and
  nothing else changes.
\<close>

theorem unknown_command:
  "commands cmd = None \<Longrightarrow>
   execute_command E s (cmd # args) =
     (None, s\<lparr>stdout := stdout s @ ''Unknown command'' @ newline,
              logged := logged s @ [intercalate '' '' (cmd # args), ''ERROR: Unknown command'']\<rparr>)"
  by (simp add: execute_command_def print_def logger_info_def)

text \<open>The theorem at the unregistered name \<^verbatim>\<open>aboba\<close>.\<close>

theorem unknown_command_witness:
  "commands ''aboba'' = None \<and>
   execute_command example_env example_session [''aboba'', ''x''] =
     (None, example_session\<lparr>stdout := ''Unknown command'' @ newline,
              logged := [''aboba x'', ''ERROR: Unknown command'']\<rparr>)"
proof -
  have h: "commands ''aboba'' = None" by (simp add: commands_def)
  show ?thesis using h unknown_command[OF h, of example_env example_session "[''x'']"]
    by (simp add: example_session_def)
qed

subsection \<open>A failing handler\<close>

text \<open>
  C1. When the first token is a registered command and its handler, run on the remaining
  tokens, fails with an error \<open>e\<close>, \<^verbatim>\<open>execute_command\<close> prints the message of \<open>e\<close>
  to standard output, logs \<^verbatim>\<open>ERROR: <message>\<close> as the second entry after the line
  itself, and returns normally: no exception reaches the caller.
\<close>

theorem handler_failure_reported:
  assumes "commands cmd = Some h"
    and "h E (logger_info (intercalate '' '' (cmd # args)) s) args = (Some e, s')"
  shows "execute_command E s (cmd # args) =
           (None, s'\<lparr>stdout := stdout s' @ message e @ newline,
                     logged := logged s @ [intercalate '' '' (cmd # args), ''ERROR: '' @ message e]\<rparr>)"
proof -
  have "logged s' = logged s @ [intercalate '' '' (cmd # args)]"
    using handler_logged[OF assms(1), of E "logger_info (intercalate '' '' (cmd # args)) s" args]
    by (simp add: assms(2))
  then show ?thesis
    using assms by (simp add: execute_command_def print_def logger_info_def)
qed

text \<open>The theorem at \<^verbatim>\<open>ls wrong_path\<close> in the example session.\<close>

theorem handler_failure_reported_witness:
  "commands ''ls'' = Some ls \<and>
   ls example_env (logger_info (intercalate '' '' [''ls'', ''wrong_path'']) example_session)
       [''wrong_path'']
     = (Some (Exn FileNotFoundError ''No such file or directory''),
        logger_info (intercalate '' '' [''ls'', ''wrong_path'']) example_session) \<and>
   execute_command example_env example_session [''ls'', ''wrong_path''] =
     (None, example_session\<lparr>stdout := ''No such file or directory'' @ newline,
              logged := [''ls wrong_path'', ''ERROR: No such file or directory'']\<rparr>)"
proof -
  have h1: "commands ''ls'' = Some ls" by (simp add: commands_def)
  have h2: "ls example_env (logger_info (intercalate '' '' [''ls'', ''wrong_path'']) example_session)
              [''wrong_path'']
            = (Some (Exn FileNotFoundError ''No such file or directory''),
               logger_info (intercalate '' '' [''ls'', ''wrong_path'']) example_session)"
    by (simp add: ls_def resolve_def joinpath_def is_absolute_def example_session_def
        example_root_def path_exists_def stat_def raise_def logger_info_def)
  show ?thesis
    using h1 h2 handler_failure_reported[OF h1 h2]
    by (simp add: example_session_def logger_info_def)
qed

subsection \<open>The log entries of one call\<close>

text \<open>
  C3. The log entries of one call of \<^verbatim>\<open>execute_command\<close>: none for the empty token
  sequence; otherwise the tokens joined with single spaces, which the handler already
  finds logged, followed by nothing when the handler succeeds and by exactly one entry
  \<^verbatim>\<open>ERROR: <message>\<close> when it fails or when the command is unknown.
\<close>

theorem log_entries:
  "logged (snd (execute_command E s tokens)) =
     (case tokens of
        [] \<Rightarrow> logged s
      | cmd # args \<Rightarrow>
          logged s @ [intercalate '' '' tokens] @
          (case commands cmd of
             None \<Rightarrow> [''ERROR: Unknown command'']
           | Some h \<Rightarrow>
               (case fst (h E (logger_info (intercalate '' '' tokens) s) args) of
                  None \<Rightarrow> []
                | Some e \<Rightarrow> [''ERROR: '' @ message e])))"
proof (cases tokens)
  case Nil
  then show ?thesis by (simp add: execute_command_def)
next
  case (Cons cmd args)
  show ?thesis
  proof (cases "commands cmd")
    case None
    with Cons show ?thesis by (simp add: execute_command_def)
  next
    case (Some h)
    obtain r s' where run: "h E (logger_info (intercalate '' '' tokens) s) args = (r, s')"
      by (cases "h E (logger_info (intercalate '' '' tokens) s) args")
    have "logged s' = logged s @ [intercalate '' '' tokens]"
      using handler_logged[OF Some, of E "logger_info (intercalate '' '' tokens) s" args]
      by (simp add: run)
    with Cons Some run show ?thesis
      by (cases r) (simp_all add: execute_command_def)
  qed
qed

section \<open>The working directory\<close>

text \<open>
  C6. Only a successful \<^verbatim>\<open>cd\<close> changes the working directory of the session:
  \<^verbatim>\<open>ls\<close>, \<^verbatim>\<open>cat\<close>, \<^verbatim>\<open>cp\<close>, \<^verbatim>\<open>mv\<close> and \<^verbatim>\<open>rm\<close> leave it as it was whether
  they succeed or fail, and so does a \<^verbatim>\<open>cd\<close> that fails.
\<close>

theorem pwd_changed_only_by_cd:
  "pwd (snd (ls E s args)) = pwd s \<and> pwd (snd (cat E s args)) = pwd s
   \<and> pwd (snd (cp E s args)) = pwd s \<and> pwd (snd (mv E s args)) = pwd s
   \<and> pwd (snd (rm E s args)) = pwd s
   \<and> (fst (cd E s args) \<noteq> None \<longrightarrow> pwd (snd (cd E s args)) = pwd s)"
  using ls_frame[of E s args] cat_frame[of E s args] cp_frame[of E s args]
    mv_frame[of E s args] rm_frame[of E s args] cd_fail_frame[of E s args]
  by auto

text \<open>The theorem at a \<^verbatim>\<open>cd\<close> without arguments, which fails.\<close>

theorem pwd_changed_only_by_cd_witness:
  "fst (cd example_env example_session []) \<noteq> None \<and>
   pwd (snd (cd example_env example_session [])) = pwd example_session"
proof -
  have h: "fst (cd example_env example_session []) \<noteq> None" by (simp add: cd_def)
  show ?thesis
    using h pwd_changed_only_by_cd[of example_env example_session "[]"] by blast
qed

text \<open>
  C5, as amended. Let the working directory \<open>P\<close> be a resolved path, as \<^verbatim>\<open>cd\<close> and
  the start of the session leave it, and let \<open>d\<close> be the name of a subdirectory of \<open>P\<close>
  that is a directory itself and no link, \<open>d\<close> not being \<^verbatim>\<open>~\<close>. Then \<^verbatim>\<open>cd d\<close>
  followed by \<^verbatim>\<open>cd ..\<close> succeeds twice and restores the session, working directory
  included. (A name is one non-empty component other than \<^verbatim>\<open>.\<close> and \<^verbatim>\<open>..\<close>.)
\<close>

theorem cd_round_trip:
  assumes resolved: "resolve (root s) (pwd s) = Inr (pwd s)"
    and subdir: "is_dir_node (lookup (root s) (pwd s @ [d]))"
    and name: "d \<noteq> []" "CHR ''/'' \<notin> set d" "d \<noteq> ''.''" "d \<noteq> ''..''"
    and not_home: "d \<noteq> ''~''"
  shows "cd E s [d] = (None, s\<lparr>pwd := pwd s @ [d]\<rparr>)
         \<and> cd E (snd (cd E s [d])) [''..''] = (None, s)"
proof -
  have plain: "plain_from (root s) [] (pwd s @ [d])"
    using resolve_plain[OF resolved] subdir name
    by (cases "lookup (root s) (pwd s @ [d])" rule: is_dir_node.cases)
       (simp_all add: plain_from_append)
  have down: "resolve (root s) (pwd s @ [d]) = Inr (pwd s @ [d])"
    using realpath_of_plain[OF plain] by (simp add: resolve_def)
  have "cd E s [d] =
          (case resolve (root s) (pwd s @ [d]) of
             Inl e \<Rightarrow> (Some e, s)
           | Inr new_path \<Rightarrow>
               if \<not> path_exists (root s) new_path then
                 raise FileNotFoundError ''No such file or directory'' s
               else if \<not> path_is_dir (root s) new_path then
                 raise NotADirectoryError ''Not a directory'' s
               else (None, s\<lparr>pwd := new_path\<rparr>))"
    using name not_home by (simp add: cd_def joinpath_name)
  then have first: "cd E s [d] = (None, s\<lparr>pwd := pwd s @ [d]\<rparr>)"
    using cd_checked_success[OF down subdir] by simp
  let ?s1 = "s\<lparr>pwd := pwd s @ [d]\<rparr>"
  have parent: "is_dir_node (lookup (root ?s1) (pwd s))"
    using subdir lookup_parent_dir[of "root s" "pwd s" d]
    by (cases "lookup (root s) (pwd s @ [d])") simp_all
  have up: "resolve (root ?s1) (pwd s) = Inr (pwd s)"
    using resolved by simp
  have "cd E ?s1 [''..''] =
          (case resolve (root ?s1) (pwd s) of
             Inl e \<Rightarrow> (Some e, ?s1)
           | Inr new_path \<Rightarrow>
               if \<not> path_exists (root ?s1) new_path then
                 raise FileNotFoundError ''No such file or directory'' ?s1
               else if \<not> path_is_dir (root ?s1) new_path then
                 raise NotADirectoryError ''Not a directory'' ?s1
               else (None, ?s1\<lparr>pwd := new_path\<rparr>))"
    by (simp add: cd_def)
  then have "cd E ?s1 [''..''] = (None, ?s1\<lparr>pwd := pwd s\<rparr>)"
    using cd_checked_success[OF up parent] by simp
  then have "cd E ?s1 [''..''] = (None, s)" by simp
  with first show ?thesis by simp
qed

text \<open>The theorem at the subdirectory \<^verbatim>\<open>dir1\<close> of \<^verbatim>\<open>/work\<close>.\<close>

theorem cd_round_trip_witness:
  "resolve (root example_session) (pwd example_session) = Inr (pwd example_session)
   \<and> is_dir_node (lookup (root example_session) (pwd example_session @ [''dir1'']))
   \<and> cd example_env example_session [''dir1'']
       = (None, example_session\<lparr>pwd := pwd example_session @ [''dir1'']\<rparr>)
   \<and> cd example_env (snd (cd example_env example_session [''dir1''])) [''..'']
       = (None, example_session)"
proof -
  have h1: "resolve (root example_session) (pwd example_session) = Inr (pwd example_session)"
    by (simp add: resolve_def example_session_def example_root_def)
  have h2: "is_dir_node (lookup (root example_session) (pwd example_session @ [''dir1'']))"
    by (simp add: example_session_def example_root_def)
  have "cd example_env example_session [''dir1'']
          = (None, example_session\<lparr>pwd := pwd example_session @ [''dir1'']\<rparr>)
        \<and> cd example_env (snd (cd example_env example_session [''dir1''])) [''..'']
          = (None, example_session)"
    by (rule cd_round_trip[OF h1 h2]) simp_all
  with h1 h2 show ?thesis by blast
qed

text \<open>
  C5 as stated fails for a subdirectory named \<^verbatim>\<open>~\<close>: \<^verbatim>\<open>cd ~\<close> goes to the home
  directory \<^verbatim>\<open>/home/user\<close>, not to \<^verbatim>\<open>/work/~\<close>, and \<^verbatim>\<open>cd ..\<close> then leaves the
  session in \<^verbatim>\<open>/home\<close>.
\<close>

theorem cd_round_trip_counterexample:
  "resolve (root example_session) (pwd example_session) = Inr (pwd example_session)
   \<and> is_dir_node (lookup (root example_session) (pwd example_session @ [''~'']))
   \<and> fst (cd example_env example_session [''~'']) = None
   \<and> cd example_env (snd (cd example_env example_session [''~''])) [''..'']
       = (None, example_session\<lparr>pwd := [''home'']\<rparr>)
   \<and> pwd (snd (cd example_env (snd (cd example_env example_session [''~''])) [''..'']))
       \<noteq> pwd example_session"
  by (simp add: cd_def resolve_def example_session_def example_root_def example_env_def
      path_exists_def path_is_dir_def stat_def)

section \<open>Listing a directory\<close>

text \<open>
  C10. \<^verbatim>\<open>ls\<close> accepts any number of arguments. Detailed mode is on exactly when
  \<^verbatim>\<open>-l\<close> occurs somewhere among them. The path that is listed comes from the last
  argument that is not \<^verbatim>\<open>-l\<close>, the earlier ones being dropped, and is the working
  directory when there is none (or when it is empty). On that path and in that mode
  \<^verbatim>\<open>ls\<close> does the following and nothing else: it fails as the resolution of the path
  fails, or with \<^verbatim>\<open>No such file or directory\<close>, or with \<^verbatim>\<open>Not a directory\<close>, or
  it prints the sorted names, one per line (in detailed mode the line of each entry, up
  to the first entry whose \<^verbatim>\<open>stat\<close> fails). So no failure of \<^verbatim>\<open>ls\<close> comes from the
  number of its arguments.
\<close>

theorem ls_any_arguments:
  "ls E s args =
     (let detailed = (''-l'' \<in> set args);
          paths = filter (\<lambda>a. a \<noteq> ''-l'') args;
          target = (if paths = [] \<or> last paths = [] then pwd s
                    else joinpath (pwd s) (last paths))
      in case resolve (root s) target of
           Inl e \<Rightarrow> (Some e, s)
         | Inr path \<Rightarrow>
             if \<not> path_exists (root s) path then
               (Some (Exn FileNotFoundError ''No such file or directory''), s)
             else if \<not> path_is_dir (root s) path then
               (Some (Exn NotADirectoryError ''Not a directory''), s)
             else
               (let names = sort (iterdir (root s) path);
                    listed = takeWhile (\<lambda>n. stat (root s) (path @ [n]) \<noteq> None) names
                in if detailed then
                     (if listed = names then None else Some (os_error FileNotFoundError),
                      s\<lparr>stdout := stdout s @
                           concat (map (\<lambda>n. case stat (root s) (path @ [n]) of
                                               Some st \<Rightarrow> ls_line E st n @ newline
                                             | None \<Rightarrow> [])
                                     listed)\<rparr>)
                   else
                     (None, s\<lparr>stdout := stdout s @ concat (map (\<lambda>n. n @ newline) names)\<rparr>)))
   \<and> (fst (ls E s args) = None
      \<or> fst (ls E s args) = Some (Exn FileNotFoundError ''No such file or directory'')
      \<or> fst (ls E s args) = Some (Exn NotADirectoryError ''Not a directory'')
      \<or> fst (ls E s args) = Some (os_error FileNotFoundError)
      \<or> (\<exists>e. fst (ls E s args) = Some e
             \<and> resolve (root s)
                   (if filter (\<lambda>a. a \<noteq> ''-l'') args = []
                       \<or> last (filter (\<lambda>a. a \<noteq> ''-l'') args) = []
                    then pwd s
                    else joinpath (pwd s) (last (filter (\<lambda>a. a \<noteq> ''-l'') args))) = Inl e))"
proof
  show "ls E s args =
     (let detailed = (''-l'' \<in> set args);
          paths = filter (\<lambda>a. a \<noteq> ''-l'') args;
          target = (if paths = [] \<or> last paths = [] then pwd s
                    else joinpath (pwd s) (last paths))
      in case resolve (root s) target of
           Inl e \<Rightarrow> (Some e, s)
         | Inr path \<Rightarrow>
             if \<not> path_exists (root s) path then
               (Some (Exn FileNotFoundError ''No such file or directory''), s)
             else if \<not> path_is_dir (root s) path then
               (Some (Exn NotADirectoryError ''Not a directory''), s)
             else
               (let names = sort (iterdir (root s) path);
                    listed = takeWhile (\<lambda>n. stat (root s) (path @ [n]) \<noteq> None) names
                in if detailed then
                     (if listed = names then None else Some (os_error FileNotFoundError),
                      s\<lparr>stdout := stdout s @
                           concat (map (\<lambda>n. case stat (root s) (path @ [n]) of
                                               Some st \<Rightarrow> ls_line E st n @ newline
                                             | None \<Rightarrow> [])
                                     listed)\<rparr>)
                   else
                     (None, s\<lparr>stdout := stdout s @ concat (map (\<lambda>n. n @ newline) names)\<rparr>)))"
    by (rule ls_unfolded)
next
  let ?paths = "filter (\<lambda>a. a \<noteq> ''-l'') args"
  let ?target = "if ?paths = [] \<or> last ?paths = [] then pwd s else joinpath (pwd s) (last ?paths)"
  note eq = ls_unfolded[of E s args, unfolded Let_def]
  show "fst (ls E s args) = None
      \<or> fst (ls E s args) = Some (Exn FileNotFoundError ''No such file or directory'')
      \<or> fst (ls E s args) = Some (Exn NotADirectoryError ''Not a directory'')
      \<or> fst (ls E s args) = Some (os_error FileNotFoundError)
      \<or> (\<exists>e. fst (ls E s args) = Some e \<and> resolve (root s) ?target = Inl e)"
  proof (cases "resolve (root s) ?target")
    case (Inl e)
    with eq have "fst (ls E s args) = Some e" by simp
    with Inl show ?thesis by simp
  next
    case (Inr path)
    show ?thesis
    proof (cases "path_exists (root s) path")
      case False
      with eq Inr show ?thesis by simp
    next
      case ex: True
      show ?thesis
      proof (cases "path_is_dir (root s) path")
        case False
        with eq Inr ex show ?thesis by simp
      next
        case True
        with eq Inr ex show ?thesis by (cases "''-l'' \<in> set args") simp_all
      qed
    qed
  qed
qed

text \<open>
  The theorem at \<^verbatim>\<open>ls home -l dir1\<close>, which lists \<^verbatim>\<open>/work/dir1\<close> in detail, and at
  \<^verbatim>\<open>ls dir1 /home\<close>, which lists \<^verbatim>\<open>/home\<close> by name.
\<close>

theorem ls_any_arguments_witness:
  "ls example_env example_session [''home'', ''-l'', ''dir1''] =
     (None, example_session\<lparr>stdout :=
        ''-rw-r--r-- 1000 1000        5 Jan 01 00:00 file.txt'' @ newline\<rparr>)
   \<and> ls example_env example_session [''dir1'', ''/home''] =
     (None, example_session\<lparr>stdout := ''user'' @ newline\<rparr>)"
  using ls_any_arguments[of example_env example_session "[''home'', ''-l'', ''dir1'']"]
    ls_any_arguments[of example_env example_session "[''dir1'', ''/home'']"]
  by (simp add: Let_def resolve_def joinpath_def is_absolute_def path_exists_def path_is_dir_def
      stat_def iterdir_def ls_line_def show_nat_examples filemode_example
      example_session_def example_root_def example_env_def example_file_meta_def
      example_dir_meta_def del: show_nat.simps)

text \<open>
  C7. When \<^verbatim>\<open>ls\<close> is given no \<^verbatim>\<open>-l\<close> and its target (the last argument, or the
  working directory) resolves to an existing directory, it succeeds and prints one line
  per immediate child of that directory and nothing else: the lines are the base names of
  the children, each once, in ascending order of their bytes.
\<close>

theorem ls_sorted_names:
  assumes plain_mode: "''-l'' \<notin> set args"
    and target: "resolve (root s)
                   (if args = [] \<or> last args = [] then pwd s
                    else joinpath (pwd s) (last args)) = Inr p"
    and dir: "is_dir_node (lookup (root s) p)"
  shows "\<exists>names. sorted names \<and> distinct names
           \<and> set names = {n. lookup (root s) (p @ [n]) \<noteq> None}
           \<and> ls E s args =
               (None, s\<lparr>stdout := stdout s @ concat (map (\<lambda>n. n @ newline) names)\<rparr>)"
proof -
  from dir obtain m kids where node: "lookup (root s) p = Some (Dir m kids)"
    by (cases "lookup (root s) p" rule: is_dir_node.cases) simp_all
  have all: "filter (\<lambda>a. a \<noteq> ''-l'') args = args"
    using plain_mode by (induction args) auto
  have parsed: "ls_args args (False, None) = (False, if args = [] then None else Some (last args))"
    using plain_mode all by (cases args) (simp_all add: ls_args_acc)
  have st: "stat (root s) p = Some (Dir m kids)"
    using stat_resolved[OF target] node by simp
  have tgt: "(case (if args = [] then None else Some (last args)) of
                None \<Rightarrow> pwd s
              | Some a \<Rightarrow> if a = [] then pwd s else joinpath (pwd s) a)
             = (if args = [] \<or> last args = [] then pwd s else joinpath (pwd s) (last args))"
    by simp
  have "ls E s args =
          (case Inr p of
             Inl e \<Rightarrow> (Some e, s)
           | Inr path \<Rightarrow>
               if \<not> path_exists (root s) path then
                 raise FileNotFoundError ''No such file or directory'' s
               else if \<not> path_is_dir (root s) path then
                 raise NotADirectoryError ''Not a directory'' s
               else ls_items E False path (sort (iterdir (root s) path)) s)"
    by (simp only: ls_def parsed prod.case tgt target)
  then have "ls E s args = ls_items E False p (sort (iterdir (root s) p)) s"
    using st by (simp add: path_exists_def path_is_dir_def)
  then have run: "ls E s args =
      (None, s\<lparr>stdout := stdout s @ concat (map (\<lambda>n. n @ newline) (sort (iterdir (root s) p)))\<rparr>)"
    by (simp add: ls_items_plain)
  have "sorted (sort (iterdir (root s) p))" by simp
  moreover have "distinct (sort (iterdir (root s) p))" by (simp add: iterdir_distinct)
  moreover have "set (sort (iterdir (root s) p)) = {n. lookup (root s) (p @ [n]) \<noteq> None}"
    using iterdir_set[OF node] by simp
  ultimately show ?thesis using run by blast
qed

text \<open>The theorem at \<^verbatim>\<open>ls .\<close> in \<^verbatim>\<open>/work\<close>, with the lines it prints.\<close>

theorem ls_sorted_names_witness:
  "''-l'' \<notin> set [''.'']
   \<and> resolve (root example_session) (joinpath (pwd example_session) ''.'') = Inr [''work'']
   \<and> is_dir_node (lookup (root example_session) [''work''])
   \<and> (\<exists>names. sorted names \<and> distinct names
         \<and> set names = {n. lookup (root example_session) ([''work''] @ [n]) \<noteq> None}
         \<and> ls example_env example_session [''.''] =
             (None, example_session\<lparr>stdout := stdout example_session
                                        @ concat (map (\<lambda>n. n @ newline) names)\<rparr>))
   \<and> ls example_env example_session [''.''] =
       (None, example_session\<lparr>stdout := ''dir1'' @ newline @ ''file1.txt'' @ newline
                                  @ ''link'' @ newline @ ''~'' @ newline\<rparr>)"
proof -
  have h1: "''-l'' \<notin> set [''.'']" by simp
  have h2: "resolve (root example_session)
              (if [''.''] = [] \<or> last [''.''] = [] then pwd example_session
               else joinpath (pwd example_session) (last [''.''])) = Inr [''work'']"
    by (simp add: resolve_def joinpath_def is_absolute_def example_session_def example_root_def)
  have h3: "is_dir_node (lookup (root example_session) [''work''])"
    by (simp add: example_session_def example_root_def)
  have h4: "ls example_env example_session [''.''] =
       (None, example_session\<lparr>stdout := ''dir1'' @ newline @ ''file1.txt'' @ newline
                                  @ ''link'' @ newline @ ''~'' @ newline\<rparr>)"
    by (simp add: ls_def resolve_def joinpath_def is_absolute_def example_session_def
        example_root_def path_exists_def path_is_dir_def stat_def iterdir_def print_def)
  show ?thesis
    using h1 h2 h3 h4 ls_sorted_names[OF h1 h2 h3, of example_env] by simp
qed

section \<open>Removing\<close>

text \<open>
  C4. When the argument of \<^verbatim>\<open>rm\<close> (with or without a leading \<^verbatim>\<open>-r\<close>) resolves to
  the root or to the parent of the working directory, \<^verbatim>\<open>rm\<close> fails with
  \<^verbatim>\<open>PermissionError\<close> and changes nothing, whether or not anything exists there; and
  \<^verbatim>\<open>rm /\<close> fails so in every session, whatever the filesystem holds.
\<close>

theorem rm_permission_guard:
  assumes "args = [a] \<and> a \<noteq> ''-r'' \<or> args = [''-r'', a]"
    and "resolve (root s) (joinpath (pwd s) a) = Inr p"
    and "p = [] \<or> p = butlast (pwd s)"
  shows "rm E s args =
           raise PermissionError
             (if p = [] then ''cannot remove root directory''
              else ''cannot remove parent directory'') s
         \<and> rm E s' [''/''] = raise PermissionError ''cannot remove root directory'' s'"
proof
  from assms(1) obtain r where "leading_r args = (r, [a])"
    by (auto simp: leading_r_simps)
  then show "rm E s args =
           raise PermissionError
             (if p = [] then ''cannot remove root directory''
              else ''cannot remove parent directory'') s"
    using assms(2,3) by (rule rm_guarded)
next
  have "leading_r [''/''] = (False, [''/''])" by (simp add: leading_r_def)
  moreover have "resolve (root s') (joinpath (pwd s') ''/'') = Inr []"
    by (simp add: joinpath_root resolve_root)
  ultimately show "rm E s' [''/''] = raise PermissionError ''cannot remove root directory'' s'"
    using rm_guarded[of "[''/'']" False "''/''" s' "[]" E] by simp
qed

text \<open>The theorem at \<^verbatim>\<open>rm -r ..\<close> in \<^verbatim>\<open>/work/dir1\<close>.\<close>

theorem rm_permission_guard_witness:
  "resolve (root (example_session\<lparr>pwd := [''work'', ''dir1'']\<rparr>))
     (joinpath (pwd (example_session\<lparr>pwd := [''work'', ''dir1'']\<rparr>)) ''..'') = Inr [''work'']
   \<and> rm example_env (example_session\<lparr>pwd := [''work'', ''dir1'']\<rparr>) [''-r'', ''..'']
       = (Some (Exn PermissionError ''cannot remove parent directory''),
          example_session\<lparr>pwd := [''work'', ''dir1'']\<rparr>)"
proof -
  let ?s = "example_session\<lparr>pwd := [''work'', ''dir1'']\<rparr>"
  have h1: "[''-r'', ''..''] = [''..''] \<and> ''..'' \<noteq> ''-r'' \<or> [''-r'', ''..''] = [''-r'', ''..'']"
    by simp
  have h2: "resolve (root ?s) (joinpath (pwd ?s) ''..'') = Inr [''work'']"
    by (simp add: resolve_def joinpath_def is_absolute_def example_session_def example_root_def)
  have h3: "[''work''] = [] \<or> [''work''] = butlast (pwd ?s)"
    by (simp add: example_session_def)
  show ?thesis
    using h2 rm_permission_guard[OF h1 h2 h3, of example_env example_session]
    by (simp add: raise_def)
qed

text \<open>
  C8. \<^verbatim>\<open>rm -r\<close> on an existing directory that is neither the root nor the resolved
  parent of the working directory asks for confirmation and returns normally whatever
  the answer is. After the answer \<^verbatim>\<open>y\<close> or \<^verbatim>\<open>Y\<close> nothing is left at the directory's
  path or below it and every other entry is as before; after any other answer the
  filesystem is unchanged.
\<close>

theorem rm_recursive_confirmation:
  assumes target: "resolve (root s) (joinpath (pwd s) a) = Inr p"
    and not_root: "p \<noteq> []"
    and parent: "resolve (root s) (butlast (pwd s)) = Inr q"
    and not_parent: "p \<noteq> q"
    and dir: "is_dir_node (lookup (root s) p)"
    and response: "stdin s = r # rest"
  shows "\<exists>fs'. rm E s [''-r'', a] =
                  (None, s\<lparr>root := fs', stdin := rest,
                           stdout := stdout s @ ''Remove directory '' @ [CHR 0x27] @ str_of_path p
                                       @ [CHR 0x27] @ ''? (y/n) ''\<rparr>)
               \<and> (if r = ''y'' \<or> r = ''Y''
                   then \<forall>x. entry fs' x = (if prefix p x then None else entry (root s) x)
                   else fs' = root s)"
proof -
  have slash: "str_of_path p \<noteq> ''/''"
    using resolve_plain[OF target] not_root by (simp add: str_of_path_root)
  have st: "stat (root s) p = lookup (root s) p"
    using target by (rule stat_resolved)
  have isdir: "path_exists (root s) p" "path_is_dir (root s) p"
    using dir st by (cases "lookup (root s) p" rule: is_dir_node.cases; simp add: path_exists_def path_is_dir_def)+
  let ?prompt = "''Remove directory '' @ [CHR 0x27] @ str_of_path p @ [CHR 0x27] @ ''? (y/n) ''"
  have rm_eq: "rm E s [''-r'', a] =
          (case input ?prompt s of
             (Inl e, s') \<Rightarrow> (Some e, s')
           | (Inr confirm, s') \<Rightarrow>
               if lower confirm \<noteq> ''y'' then (None, s')
               else (case shutil_rmtree (root s') p of (e, fs') \<Rightarrow> (e, s'\<lparr>root := fs'\<rparr>)))"
    using target parent not_parent slash isdir
    by (simp add: rm_def leading_r_def)
  have inp: "input ?prompt s = (Inr r, s\<lparr>stdout := stdout s @ ?prompt, stdin := rest\<rparr>)"
    using response by (simp add: input_def print_noend_def)
  show ?thesis
  proof (cases "r = ''y'' \<or> r = ''Y''")
    case True
    then have "lower r = ''y''" by (simp add: lower_y)
    with rm_eq inp have "rm E s [''-r'', a] =
        (None, s\<lparr>root := modify p (\<lambda>old. None) (root s), stdin := rest,
                 stdout := stdout s @ ?prompt\<rparr>)"
      by (simp add: shutil_rmtree_def)
    moreover have "\<forall>x. entry (modify p (\<lambda>old. None) (root s)) x
                     = (if prefix p x then None else entry (root s) x)"
      using entry_delete[OF not_root] by simp
    ultimately show ?thesis using True by auto
  next
    case False
    then have "lower r \<noteq> ''y''" by (simp add: lower_y)
    with rm_eq inp have "rm E s [''-r'', a] =
        (None, s\<lparr>root := root s, stdin := rest, stdout := stdout s @ ?prompt\<rparr>)"
      by simp
    then show ?thesis using False by auto
  qed
qed

text \<open>The theorem at \<^verbatim>\<open>rm -r dir1\<close>, answered \<^verbatim>\<open>n\<close> and answered \<^verbatim>\<open>Y\<close>.\<close>

theorem rm_recursive_confirmation_witness:
  "(\<exists>fs'. rm example_env example_session [''-r'', ''dir1''] =
            (None, example_session\<lparr>root := fs', stdin := [],
                     stdout := stdout example_session @ ''Remove directory '' @ [CHR 0x27]
                                 @ str_of_path [''work'', ''dir1''] @ [CHR 0x27] @ ''? (y/n) ''\<rparr>)
          \<and> fs' = root example_session)
   \<and> (\<exists>fs'. rm example_env (example_session\<lparr>stdin := [''Y'']\<rparr>) [''-r'', ''dir1''] =
            (None, example_session\<lparr>stdin := [''Y''], root := fs', stdin := [],
                     stdout := stdout (example_session\<lparr>stdin := [''Y'']\<rparr>) @ ''Remove directory ''
                                 @ [CHR 0x27] @ str_of_path [''work'', ''dir1''] @ [CHR 0x27]
                                 @ ''? (y/n) ''\<rparr>)
          \<and> entry fs' [''work'', ''dir1'', ''file.txt''] = None
          \<and> entry fs' [''work'', ''file1.txt''] = entry example_root [''work'', ''file1.txt''])"
proof -
  let ?s = "example_session\<lparr>stdin := [''Y'']\<rparr>"
  have t1: "resolve (root example_session) (joinpath (pwd example_session) ''dir1'')
              = Inr [''work'', ''dir1'']"
    by (simp add: resolve_def joinpath_def is_absolute_def example_session_def example_root_def)
  have t2: "resolve (root ?s) (joinpath (pwd ?s) ''dir1'') = Inr [''work'', ''dir1'']"
    using t1 by simp
  have p1: "resolve (root example_session) (butlast (pwd example_session)) = Inr []"
    by (simp add: resolve_def example_session_def)
  have p2: "resolve (root ?s) (butlast (pwd ?s)) = Inr []"
    using p1 by simp
  have d1: "is_dir_node (lookup (root example_session) [''work'', ''dir1''])"
    by (simp add: example_session_def example_root_def)
  have d2: "is_dir_node (lookup (root ?s) [''work'', ''dir1''])"
    using d1 by simp
  have i1: "stdin example_session = ''n'' # []" by (simp add: example_session_def)
  have i2: "stdin ?s = ''Y'' # []" by simp
  have n: "[''work'', ''dir1''] \<noteq> ([]::path)" by simp
  have "\<exists>fs'. rm example_env example_session [''-r'', ''dir1''] =
            (None, example_session\<lparr>root := fs', stdin := [],
                     stdout := stdout example_session @ ''Remove directory '' @ [CHR 0x27]
                                 @ str_of_path [''work'', ''dir1''] @ [CHR 0x27] @ ''? (y/n) ''\<rparr>)
          \<and> fs' = root example_session"
    using rm_recursive_confirmation[OF t1 n p1 n d1 i1, of example_env] by simp
  moreover have "\<exists>fs'. rm example_env ?s [''-r'', ''dir1''] =
            (None, ?s\<lparr>root := fs', stdin := [],
                     stdout := stdout ?s @ ''Remove directory ''
                                 @ [CHR 0x27] @ str_of_path [''work'', ''dir1''] @ [CHR 0x27]
                                 @ ''? (y/n) ''\<rparr>)
          \<and> entry fs' [''work'', ''dir1'', ''file.txt''] = None
          \<and> entry fs' [''work'', ''file1.txt''] = entry example_root [''work'', ''file1.txt'']"
  proof -
    from rm_recursive_confirmation[OF t2 n p2 n d2 i2, of example_env]
    obtain fs' where run: "rm example_env ?s [''-r'', ''dir1''] =
            (None, ?s\<lparr>root := fs', stdin := [],
                     stdout := stdout ?s @ ''Remove directory ''
                                 @ [CHR 0x27] @ str_of_path [''work'', ''dir1''] @ [CHR 0x27]
                                 @ ''? (y/n) ''\<rparr>)"
      and gone: "\<forall>x. entry fs' x = (if prefix [''work'', ''dir1''] x then None else entry (root ?s) x)"
      by auto
    have "entry fs' [''work'', ''dir1'', ''file.txt''] = None"
      using gone by simp
    moreover have "entry fs' [''work'', ''file1.txt''] = entry example_root [''work'', ''file1.txt'']"
      using gone by (simp add: example_session_def)
    ultimately show ?thesis using run by blast
  qed
  ultimately show ?thesis by blast
qed

section \<open>Copying a file\<close>

text \<open>
  C9, as amended. When the source of \<^verbatim>\<open>cp\<close> (with or without a leading \<^verbatim>\<open>-r\<close>)
  resolves to a regular file and the destination resolves to a path other than the
  source that is no directory and whose parent is an existing directory, \<^verbatim>\<open>cp\<close>
  succeeds; afterwards the destination is a regular file with the contents and the
  permission bits of the source, whether or not a file was there before, and every other
  entry is as before.
\<close>

theorem cp_regular_file:
  assumes args: "args = [a, b] \<and> a \<noteq> ''-r'' \<or> args = [''-r'', a, b]"
    and source: "resolve (root s) (joinpath (pwd s) a) = Inr src"
    and is_file: "lookup (root s) src = Some (File m c)"
    and dest: "resolve (root s) (joinpath (pwd s) b) = Inr dst"
    and distinct: "dst \<noteq> src"
    and not_dir: "\<not> is_dir_node (lookup (root s) dst)"
    and parent: "is_dir_node (lookup (root s) (butlast dst))"
  shows "\<exists>fs' m'. cp E s args = (None, s\<lparr>root := fs'\<rparr>) \<and> perm m' = perm m
           \<and> (\<forall>x. entry fs' x = (if x = dst then Some (File m' c) else entry (root s) x))"
proof -
  from args obtain r where lead: "leading_r args = (r, [a, b])"
    by (auto simp: leading_r_def)
  have st: "stat (root s) src = Some (File m c)"
    using stat_resolved[OF source] is_file by simp
  have "cp E s args =
          (case shutil_copy E (root s) src dst of (e, fs') \<Rightarrow> (e, s\<lparr>root := fs'\<rparr>))"
    using lead source dest st by (simp add: cp_def path_exists_def path_is_dir_def)
  moreover obtain fs' m' where "shutil_copy E (root s) src dst = (None, fs')"
    and "perm m' = perm m"
    and "\<forall>y. entry fs' y = (if y = dst then Some (File m' c) else entry (root s) y)"
    using shutil_copy_file[OF is_file dest distinct not_dir parent, of E] by blast
  ultimately show ?thesis by auto
qed

text \<open>The theorem at \<^verbatim>\<open>cp file1.txt dir1/file.txt\<close>, which overwrites a file.\<close>

theorem cp_regular_file_witness:
  "resolve (root example_session) (joinpath (pwd example_session) ''file1.txt'')
     = Inr [''work'', ''file1.txt'']
   \<and> lookup (root example_session) [''work'', ''file1.txt'']
       = Some (File example_file_meta ''aboba'')
   \<and> resolve (root example_session) (joinpath (pwd example_session) ''dir1/file.txt'')
       = Inr [''work'', ''dir1'', ''file.txt'']
   \<and> (\<exists>fs' m'. cp example_env example_session [''file1.txt'', ''dir1/file.txt'']
                   = (None, example_session\<lparr>root := fs'\<rparr>)
         \<and> perm m' = perm example_file_meta
         \<and> entry fs' [''work'', ''dir1'', ''file.txt''] = Some (File m' ''aboba''))"
proof -
  have a: "[''file1.txt'', ''dir1/file.txt''] = [''file1.txt'', ''dir1/file.txt'']
             \<and> ''file1.txt'' \<noteq> ''-r''
           \<or> [''file1.txt'', ''dir1/file.txt''] = [''-r'', ''file1.txt'', ''dir1/file.txt'']"
    by simp
  have s: "resolve (root example_session) (joinpath (pwd example_session) ''file1.txt'')
             = Inr [''work'', ''file1.txt'']"
    by (simp add: resolve_def joinpath_def is_absolute_def example_session_def example_root_def)
  have f: "lookup (root example_session) [''work'', ''file1.txt'']
             = Some (File example_file_meta ''aboba'')"
    by (simp add: example_session_def example_root_def)
  have d: "resolve (root example_session) (joinpath (pwd example_session) ''dir1/file.txt'')
             = Inr [''work'', ''dir1'', ''file.txt'']"
    by (simp add: resolve_def joinpath_def is_absolute_def example_session_def example_root_def)
  have n: "[''work'', ''dir1'', ''file.txt''] \<noteq> [''work'', ''file1.txt'']" by simp
  have nd: "\<not> is_dir_node (lookup (root example_session) [''work'', ''dir1'', ''file.txt''])"
    by (simp add: example_session_def example_root_def)
  have p: "is_dir_node (lookup (root example_session) (butlast [''work'', ''dir1'', ''file.txt'']))"
    by (simp add: example_session_def example_root_def)
  from cp_regular_file[OF a s f d n nd p, of example_env]
  obtain fs' m' where "cp example_env example_session [''file1.txt'', ''dir1/file.txt'']
                   = (None, example_session\<lparr>root := fs'\<rparr>)"
    and "perm m' = perm example_file_meta"
    and "\<forall>x. entry fs' x = (if x = [''work'', ''dir1'', ''file.txt'']
                            then Some (File m' ''aboba'') else entry (root example_session) x)"
    by blast
  then have "\<exists>fs' m'. cp example_env example_session [''file1.txt'', ''dir1/file.txt'']
                   = (None, example_session\<lparr>root := fs'\<rparr>)
         \<and> perm m' = perm example_file_meta
         \<and> entry fs' [''work'', ''dir1'', ''file.txt''] = Some (File m' ''aboba'')"
    by auto
  with s f d show ?thesis by blast
qed

text \<open>
  C9 as stated fails when the directory of the destination does not exist: the source is
  a regular file, and \<^verbatim>\<open>cp\<close> fails with \<^verbatim>\<open>FileNotFoundError\<close> and copies nothing.
\<close>

theorem cp_regular_file_counterexample:
  "resolve (root example_session) (joinpath (pwd example_session) ''file1.txt'')
     = Inr [''work'', ''file1.txt'']
   \<and> lookup (root example_session) [''work'', ''file1.txt'']
       = Some (File example_file_meta ''aboba'')
   \<and> resolve (root example_session) (joinpath (pwd example_session) ''nodir/copy.txt'')
       = Inr [''work'', ''nodir'', ''copy.txt'']
   \<and> cp example_env example_session [''file1.txt'', ''nodir/copy.txt'']
       = (Some (Exn FileNotFoundError ''[Errno 2] No such file or directory''), example_session)
   \<and> lookup (root example_session) [''work'', ''nodir'', ''copy.txt''] = None"
  by (simp add: cp_def leading_r_def shutil_copy_def resolve_def joinpath_def is_absolute_def
      path_exists_def path_is_dir_def stat_def os_error_def example_session_def
      example_root_def)

end
